theory Spec2Isabelle
  imports Main "HOL-Library.Sublist" "HOL-Library.Multiset" "HOL-Library.Char_ord"
    "HOL-Library.List_Lexorder"
begin

section \<open>Rows of the remote tables\<close>

text \<open>
  The storefront keeps no data of its own: three tables of the remote store
  (\<open>products\<close>, \<open>cart_items\<close>, \<open>orders\<close>) hold everything, and every page
  reads or writes them through the fluent query client. A table is the list of its rows
  in storage order. Identifiers are the strings the store issues; a timestamp is the
  number \<open>new Date(created_at).getTime()\<close> reads from the column, which is also
  the order the store sorts the column by.
\<close>

type_synonym ident = string
type_synonym timestamp = int

record Product =
  pid :: ident
  name :: string
  description :: "string option"
  category :: string
  price :: int
  stock_quantity :: int
  is_active :: bool
  created_at :: timestamp

text \<open>A row of \<open>cart_items\<close>; \<open>item_quantity\<close> is the column \<open>quantity\<close>.\<close>

record CartItem =
  cid :: ident
  clerk_id :: ident
  product_id :: ident
  item_quantity :: int

text \<open>What a remote call reports when it fails.\<close>

datatype PostgrestError = PostgrestError (message: string)

text \<open>\<open>!v\<close> for a string that may be missing: \<open>null\<close>, \<open>undefined\<close> or empty.\<close>

definition falsy :: "string option \<Rightarrow> bool" where
  "falsy v = (case v of None \<Rightarrow> True | Some s \<Rightarrow> s = [])"

text \<open>
  The message the catalog and order pages show for a failed query:
  \<open>supabaseError.message || ...\<close>, the page's own text when the error has none.
\<close>

definition error_text :: "PostgrestError \<Rightarrow> string" where
  "error_text e = (if message e = [] then ''the query failed'' else message e)"

section \<open>The remote calls of the cart\<close>

text \<open>
  Each call answers with \<open>{data, error}\<close>. A call can fail for reasons the page does
  not control (network, authorisation); the argument \<open>fault\<close> is that outcome, chosen
  by the environment. When there is no fault the call does what the query says.
\<close>

text \<open>\<open>.select("*").eq("clerk_id", u).eq("product_id", p)\<close>\<close>

definition cart_lines :: "ident \<Rightarrow> ident \<Rightarrow> CartItem list \<Rightarrow> CartItem list" where
  "cart_lines u p db = filter (\<lambda>r. clerk_id r = u \<and> product_id r = p) db"

text \<open>
  \<open>.single()\<close>: the row when the query selects exactly one, otherwise an error
  (no row, or several) and no data.
\<close>

definition single :: "PostgrestError option \<Rightarrow> 'a list \<Rightarrow> PostgrestError + 'a" where
  "single fault rows =
     (case fault of
        Some e \<Rightarrow> Inl e
      | None \<Rightarrow>
          (case rows of
             [r] \<Rightarrow> Inr r
           | _ \<Rightarrow> Inl (PostgrestError ''JSON object requested, multiple (or no) rows returned'')))"

text \<open>The \<open>data\<close> field of an answer: \<open>null\<close> when the call failed.\<close>

definition data_of :: "PostgrestError + 'a \<Rightarrow> 'a option" where
  "data_of r = (case r of Inl _ \<Rightarrow> None | Inr x \<Rightarrow> Some x)"

text \<open>\<open>.update({ quantity: q }).eq("id", i)\<close>\<close>

definition update_quantity ::
  "PostgrestError option \<Rightarrow> ident \<Rightarrow> int \<Rightarrow> CartItem list \<Rightarrow> PostgrestError + CartItem list" where
  "update_quantity fault i q db =
     (case fault of
        Some e \<Rightarrow> Inl e
      | None \<Rightarrow> Inr (map (\<lambda>r. if cid r = i then r\<lparr>item_quantity := q\<rparr> else r) db))"

text \<open>
  \<open>.insert({ clerk_id, product_id, quantity })\<close>: the store gives the new row its
  identifier \<open>i\<close>, and refuses a row whose identifier is already taken (the primary key).
\<close>

definition insert_item ::
  "PostgrestError option \<Rightarrow> ident \<Rightarrow> ident \<Rightarrow> ident \<Rightarrow> int \<Rightarrow> CartItem list
     \<Rightarrow> PostgrestError + CartItem list" where
  "insert_item fault i u p q db =
     (case fault of
        Some e \<Rightarrow> Inl e
      | None \<Rightarrow>
          if i \<in> set (map cid db)
          then Inl (PostgrestError ''duplicate key value violates unique constraint'')
          else Inr (db @ [\<lparr>cid = i, clerk_id = u, product_id = p, item_quantity = q\<rparr>]))"

text \<open>\<open>.select("*", { count: "exact", head: true }).eq("clerk_id", u)\<close>\<close>

definition count_lines :: "PostgrestError option \<Rightarrow> ident \<Rightarrow> CartItem list \<Rightarrow> PostgrestError + int" where
  "count_lines fault u db =
     (case fault of
        Some e \<Rightarrow> Inl e
      | None \<Rightarrow> Inr (int (length (filter (\<lambda>r. clerk_id r = u) db))))"

text \<open>The environment of one run of the add-to-cart handler.\<close>

record Remote =
  lookup_fault :: "PostgrestError option"
  write_fault :: "PostgrestError option"
  count_fault :: "PostgrestError option"
  new_id :: ident

section \<open>The product detail page\<close>

text \<open>
  The state of \<open>ProductDetailPage\<close>: its \<open>useState\<close> cells, and the alerts it has
  shown. \<open>quantity\<close> is the value of the quantity selector.
\<close>

record DetailState =
  product :: "Product option"
  loading :: bool
  error :: "string option"
  quantity :: int
  addingToCart :: bool
  showDialog :: bool
  cartItemCount :: int
  alerts :: "string list"

definition initial_detail :: DetailState where
  "initial_detail =
     \<lparr>product = None, loading = True, error = None, quantity = 1, addingToCart = False,
      showDialog = False, cartItemCount = 0, alerts = []\<rparr>"

text \<open>\<open>count || 0\<close>\<close>

definition count_or_0 :: "PostgrestError + int \<Rightarrow> int" where
  "count_or_0 r = (case r of Inl _ \<Rightarrow> 0 | Inr n \<Rightarrow> n)"

text \<open>
  \<open>handleAddToCart\<close>. The lookup's \<open>error\<close> is not read: only its \<open>data\<close>
  decides between the update and the insert. A failed write throws; the \<open>catch\<close>
  block alerts (the text stands for the page's own), and \<open>finally\<close> clears
  \<open>addingToCart\<close>. The count that follows a successful write is read without its
  \<open>error\<close> as well.
\<close>

definition handleAddToCart ::
  "ident option \<Rightarrow> Remote \<Rightarrow> DetailState \<times> CartItem list \<Rightarrow> DetailState \<times> CartItem list" where
  "handleAddToCart user env sd =
     (case sd of (st, db) \<Rightarrow>
       (case user of
          None \<Rightarrow> (st, db)
        | Some u \<Rightarrow>
           (case product st of
              None \<Rightarrow> (st, db)
            | Some p \<Rightarrow>
               (let existingItem = data_of (single (lookup_fault env) (cart_lines u (pid p) db));
                    written =
                      (case existingItem of
                         Some e \<Rightarrow>
                           update_quantity (write_fault env) (cid e) (item_quantity e + quantity st) db
                       | None \<Rightarrow>
                           insert_item (write_fault env) (new_id env) u (pid p) (quantity st) db)
                in case written of
                     Inl err \<Rightarrow>
                       (st\<lparr>addingToCart := False,
                           alerts := alerts st @ [''add to cart failed'']\<rparr>, db)
                   | Inr db' \<Rightarrow>
                       (st\<lparr>addingToCart := False, showDialog := True,
                           cartItemCount := count_or_0 (count_lines (count_fault env) u db')\<rparr>,
                        db')))))"

text \<open>\<open>const maxQuantity = Math.min(product.stock_quantity, 99)\<close>\<close>

definition maxQuantity :: "Product \<Rightarrow> int" where
  "maxQuantity p = min (stock_quantity p) 99"

text \<open>
  What the user can do on the page. \<open>InputChange v\<close> carries what
  \<open>parseInt(e.target.value)\<close> returned, \<open>None\<close> for \<open>NaN\<close>.
\<close>

datatype Event = ClickMinus | ClickPlus | InputChange "int option" | ClickAddToCart

text \<open>
  The quantity selector and the buttons are rendered only when the page is past its
  loading return and its \<open>error || !product\<close> return and the product is not sold out
  (\<open>product.stock_quantity === 0\<close> renders the sold-out notice instead).
\<close>

definition purchase_rendered :: "DetailState \<Rightarrow> bool" where
  "purchase_rendered st =
     (\<not> loading st \<and> falsy (error st) \<and>
      (case product st of None \<Rightarrow> False | Some p \<Rightarrow> stock_quantity p \<noteq> 0))"

text \<open>\<open>parseInt(e.target.value) || 1\<close>\<close>

definition parsed_or_1 :: "int option \<Rightarrow> int" where
  "parsed_or_1 v = (case v of None \<Rightarrow> 1 | Some n \<Rightarrow> if n = 0 then 1 else n)"

text \<open>
  One event. A control that is not rendered, or is rendered \<open>disabled\<close>, delivers no
  click; the add button is rendered for a signed-in user only.
\<close>

definition dispatch ::
  "ident option \<Rightarrow> Remote \<Rightarrow> Event \<Rightarrow> DetailState \<times> CartItem list \<Rightarrow> DetailState \<times> CartItem list" where
  "dispatch user env ev sd =
     (case sd of (st, db) \<Rightarrow>
       (case product st of
          None \<Rightarrow> (st, db)
        | Some p \<Rightarrow>
            if \<not> purchase_rendered st then (st, db)
            else
              (case ev of
                 ClickMinus \<Rightarrow>
                   if quantity st \<le> 1 then (st, db)
                   else (st\<lparr>quantity := max 1 (quantity st - 1)\<rparr>, db)
               | ClickPlus \<Rightarrow>
                   if quantity st \<ge> maxQuantity p then (st, db)
                   else (st\<lparr>quantity := min (maxQuantity p) (quantity st + 1)\<rparr>, db)
               | InputChange v \<Rightarrow>
                   (st\<lparr>quantity := max 1 (min (maxQuantity p) (parsed_or_1 v))\<rparr>, db)
               | ClickAddToCart \<Rightarrow>
                   if user = None \<or> addingToCart st \<or> stock_quantity p = 0 then (st, db)
                   else handleAddToCart user env (st, db))))"

text \<open>A run of the page: the events in order, each with the remote outcomes it meets.\<close>

fun run :: "ident option \<Rightarrow> (Remote \<times> Event) list \<Rightarrow> DetailState \<times> CartItem list
    \<Rightarrow> DetailState \<times> CartItem list" where
  "run user [] sd = sd"
| "run user ((env, ev) # rest) sd = run user rest (dispatch user env ev sd)"

text \<open>
  \<open>fetchProduct\<close>, with the guard of its effect (\<open>if (!productId) return\<close>): the one
  active product with the identifier of the route, through
  \<open>.eq("id", productId).eq("is_active", true).single()\<close>. A failure leaves the
  product as it was. Its \<open>catch\<close> takes the message of an \<open>Error\<close> instance only;
  what the client answers is a plain object, so the page shows its own text.
\<close>

definition fetchProduct ::
  "PostgrestError option \<Rightarrow> ident \<Rightarrow> Product list \<Rightarrow> DetailState \<Rightarrow> DetailState" where
  "fetchProduct fault productId table st =
     (if productId = [] then st
      else
        (case single fault (filter (\<lambda>p. pid p = productId \<and> is_active p) table) of
           Inl e \<Rightarrow> st\<lparr>loading := False, error := Some ''the product could not be fetched''\<rparr>
         | Inr p \<Rightarrow> st\<lparr>loading := False, error := None, product := Some p\<rparr>))"

section \<open>Text of the search box\<close>

text \<open>
  A character is a code unit below 256, read as in Latin-1: the ASCII characters and the
  accented letters and signs above them. Text with characters beyond that range is
  outside the model. \<open>toLowerCase\<close> and the store's \<open>ILIKE\<close> lower the letters
  \<open>A\<close> to \<open>Z\<close> and the accented capitals \<open>0xC0\<close> to \<open>0xDE\<close> (but not the
  multiplication sign \<open>0xD7\<close>) to the letter 32 places on.
\<close>

definition upper_letters :: string where
  "upper_letters =
     ''ABCDEFGHIJKLMNOPQRSTUVWXYZ'' @
     [CHR 0xC0, CHR 0xC1, CHR 0xC2, CHR 0xC3, CHR 0xC4, CHR 0xC5, CHR 0xC6, CHR 0xC7,
      CHR 0xC8, CHR 0xC9, CHR 0xCA, CHR 0xCB, CHR 0xCC, CHR 0xCD, CHR 0xCE, CHR 0xCF,
      CHR 0xD0, CHR 0xD1, CHR 0xD2, CHR 0xD3, CHR 0xD4, CHR 0xD5, CHR 0xD6,
      CHR 0xD8, CHR 0xD9, CHR 0xDA, CHR 0xDB, CHR 0xDC, CHR 0xDD, CHR 0xDE]"

definition lower_letters :: string where
  "lower_letters =
     ''abcdefghijklmnopqrstuvwxyz'' @
     [CHR 0xE0, CHR 0xE1, CHR 0xE2, CHR 0xE3, CHR 0xE4, CHR 0xE5, CHR 0xE6, CHR 0xE7,
      CHR 0xE8, CHR 0xE9, CHR 0xEA, CHR 0xEB, CHR 0xEC, CHR 0xED, CHR 0xEE, CHR 0xEF,
      CHR 0xF0, CHR 0xF1, CHR 0xF2, CHR 0xF3, CHR 0xF4, CHR 0xF5, CHR 0xF6,
      CHR 0xF8, CHR 0xF9, CHR 0xFA, CHR 0xFB, CHR 0xFC, CHR 0xFD, CHR 0xFE]"

definition lower_char :: "char \<Rightarrow> char" where
  "lower_char c =
     (case map_of (zip upper_letters lower_letters) c of
        Some l \<Rightarrow> l
      | None \<Rightarrow> c)"

definition toLowerCase :: "string \<Rightarrow> string" where
  "toLowerCase s = map lower_char s"

text \<open>
  The white space \<open>trim\<close> strips: tab, line feed, vertical tab, form feed, carriage
  return, space and the no-break space \<open>0xA0\<close>.
\<close>

definition is_space :: "char \<Rightarrow> bool" where
  "is_space c =
     (c \<in> set [CHR '' '', CHR 0x09, CHR 0x0A, CHR 0x0B, CHR 0x0C, CHR 0x0D, CHR 0xA0])"

definition trim :: "string \<Rightarrow> string" where
  "trim s = rev (dropWhile is_space (rev (dropWhile is_space s)))"

text \<open>\<open>s.includes(q)\<close>: \<open>q\<close> occurs in \<open>s\<close> as a run of consecutive characters.\<close>

fun str_includes :: "string \<Rightarrow> string \<Rightarrow> bool" where
  "str_includes [] q = (q = [])"
| "str_includes (c # s) q = (prefix q (c # s) \<or> str_includes s q)"

text \<open>
  The store's \<open>LIKE\<close>: in the pattern \<open>%\<close> stands for any run of characters,
  \<open>_\<close> for any one character, and a backslash takes the next character literally.
  \<open>ilike\<close> is \<open>LIKE\<close> without regard to letter case.
\<close>

fun like_match :: "string \<Rightarrow> string \<Rightarrow> bool" where
  "like_match [] s = (s = [])"
| "like_match (c # pat) s =
     (if c = CHR ''%'' then
        (like_match pat s \<or> (case s of [] \<Rightarrow> False | _ # t \<Rightarrow> like_match (c # pat) t))
      else if c = CHR ''_'' then
        (case s of [] \<Rightarrow> False | _ # t \<Rightarrow> like_match pat t)
      else if c = CHR 0x5C then
        (case pat of
           [] \<Rightarrow> False
         | e # pat' \<Rightarrow> (case s of [] \<Rightarrow> False | x # t \<Rightarrow> x = e \<and> like_match pat' t))
      else
        (case s of [] \<Rightarrow> False | x # t \<Rightarrow> x = c \<and> like_match pat t))"

definition ilike :: "string \<Rightarrow> string \<Rightarrow> bool" where
  "ilike pat s = like_match (toLowerCase pat) (toLowerCase s)"

text \<open>A nullable column never matches: \<open>NULL ILIKE pat\<close> is not true.\<close>

definition ilike_opt :: "string \<Rightarrow> string option \<Rightarrow> bool" where
  "ilike_opt pat s = (case s of None \<Rightarrow> False | Some t \<Rightarrow> ilike pat t)"

section \<open>The catalog page, paginated\<close>

datatype SortKey = newest | name_asc | price_asc | price_desc

text \<open>
  \<open>.order(column, { ascending })\<close>: the rows sorted by the one column. Rows with equal
  keys keep their storage order in the model (the store promises no order among them);
  names compare byte by byte.
\<close>

definition order_asc :: "('a \<Rightarrow> 'k::linorder) \<Rightarrow> 'a list \<Rightarrow> 'a list" where
  "order_asc key rows = sort_key key rows"

definition order_desc :: "('a \<Rightarrow> int) \<Rightarrow> 'a list \<Rightarrow> 'a list" where
  "order_desc key rows = sort_key (\<lambda>r. - key r) rows"

text \<open>\<open>.range(from, to)\<close>: the rows at the zero-based offsets \<open>from\<close> to \<open>to\<close>, both included.\<close>

definition range_rows :: "int \<Rightarrow> int \<Rightarrow> 'a list \<Rightarrow> 'a list" where
  "range_rows from to rows = take (nat (to - from + 1)) (drop (nat from) rows)"

definition ITEMS_PER_PAGE :: int where
  "ITEMS_PER_PAGE = 12"

text \<open>\<open>Math.ceil(totalCount / ITEMS_PER_PAGE)\<close>, for a count that is not negative.\<close>

definition totalPages :: "int \<Rightarrow> int" where
  "totalPages totalCount = (totalCount + ITEMS_PER_PAGE - 1) div ITEMS_PER_PAGE"

record CatalogState =
  products :: "Product list"
  list_loading :: bool
  list_error :: "string option"
  selectedCategory :: string
  searchQuery :: string
  sortBy :: SortKey
  currentPage :: int
  totalCount :: int

text \<open>
  The filters of \<open>fetchProducts\<close>: \<open>.eq("is_active", true)\<close>, the category unless
  it is \<open>"all"\<close>, and, unless the search text trims to nothing, the \<open>or\<close> of the two
  \<open>ilike\<close> filters, whose pattern is the search text as typed between two \<open>%\<close>.
\<close>

definition catalog_filter :: "string \<Rightarrow> string \<Rightarrow> Product \<Rightarrow> bool" where
  "catalog_filter cat q p =
     (is_active p \<and>
      (if cat \<noteq> ''all'' then category p = cat else True) \<and>
      (if trim q \<noteq> [] then
         ilike (''%'' @ q @ ''%'') (name p) \<or> ilike_opt (''%'' @ q @ ''%'') (description p)
       else True))"

text \<open>
  The keys the page accepts: \<open>sortBy\<close> is typed \<open>"newest" | "name_asc"\<close>, and the
  select that sets it offers these two options and delivers no other value.
\<close>

definition sort_options :: "SortKey list" where
  "sort_options = [newest, name_asc]"

text \<open>The \<open>switch (sortBy)\<close>: \<open>name_asc\<close>, and \<open>newest\<close> with \<open>default\<close>.\<close>

definition catalog_order :: "SortKey \<Rightarrow> Product list \<Rightarrow> Product list" where
  "catalog_order k rows =
     (case k of
        name_asc \<Rightarrow> order_asc name rows
      | _ \<Rightarrow> order_desc created_at rows)"

text \<open>The rows the query selects, in its order, before the page is cut out.\<close>

definition catalog_rows :: "string \<Rightarrow> string \<Rightarrow> SortKey \<Rightarrow> Product list \<Rightarrow> Product list" where
  "catalog_rows cat q k table = catalog_order k (filter (catalog_filter cat q) table)"

text \<open>\<open>from = (currentPage - 1) * ITEMS_PER_PAGE\<close> and \<open>to = from + ITEMS_PER_PAGE - 1\<close>\<close>

definition page_range :: "int \<Rightarrow> int \<times> int" where
  "page_range page =
     (let from = (page - 1) * ITEMS_PER_PAGE;
          to = from + ITEMS_PER_PAGE - 1
      in (from, to))"

definition page_rows :: "int \<Rightarrow> 'a list \<Rightarrow> 'a list" where
  "page_rows page rows = (case page_range page of (from, to) \<Rightarrow> range_rows from to rows)"

text \<open>
  \<open>fetchProducts\<close> of the paginated page: one query with \<open>count: "exact"\<close>, which
  answers with the page and the number of all rows the filters select.
\<close>

definition fetchProducts :: "PostgrestError option \<Rightarrow> Product list \<Rightarrow> CatalogState \<Rightarrow> CatalogState" where
  "fetchProducts fault table st =
     (case fault of
        Some e \<Rightarrow> st\<lparr>list_loading := False, list_error := Some (error_text e)\<rparr>
      | None \<Rightarrow>
          (let rows = catalog_rows (selectedCategory st) (searchQuery st) (sortBy st) table
           in st\<lparr>list_loading := False, list_error := None,
                 products := page_rows (currentPage st) rows,
                 totalCount := int (length rows)\<rparr>))"

section \<open>The catalog page, filtered in the browser\<close>

text \<open>
  The other \<open>ProductsPage\<close> loads every active product, newest first, and filters and
  sorts the loaded list itself.
\<close>

record BrowserCatalog =
  loaded :: "Product list"
  filteredProducts :: "Product list"
  browser_error :: "string option"

definition fetchAllProducts ::
  "PostgrestError option \<Rightarrow> Product list \<Rightarrow> BrowserCatalog \<Rightarrow> BrowserCatalog" where
  "fetchAllProducts fault table st =
     (case fault of
        Some e \<Rightarrow> st\<lparr>browser_error := Some (error_text e)\<rparr>
      | None \<Rightarrow>
          (let rows = order_desc created_at (filter is_active table)
           in st\<lparr>browser_error := None, loaded := rows, filteredProducts := rows\<rparr>))"

text \<open>
  \<open>Array.prototype.sort\<close> with a comparator: a stable sort, an element staying before
  the ones it does not compare greater than.
\<close>

fun insert_by :: "('a \<Rightarrow> 'a \<Rightarrow> int) \<Rightarrow> 'a \<Rightarrow> 'a list \<Rightarrow> 'a list" where
  "insert_by cmp x [] = [x]"
| "insert_by cmp x (y # ys) = (if cmp x y \<le> 0 then x # y # ys else y # insert_by cmp x ys)"

definition sort_by :: "('a \<Rightarrow> 'a \<Rightarrow> int) \<Rightarrow> 'a list \<Rightarrow> 'a list" where
  "sort_by cmp xs = foldr (insert_by cmp) xs []"

text \<open>
  The keys this page accepts: \<open>sortBy\<close> is typed
  \<open>"price_asc" | "price_desc" | "newest"\<close>, and its select offers these three options.
\<close>

definition browser_sort_options :: "SortKey list" where
  "browser_sort_options = [newest, price_asc, price_desc]"

text \<open>The comparator of the \<open>switch (sortBy)\<close>: the two price orders, and \<open>newest\<close> with \<open>default\<close>.\<close>

definition compare_products :: "SortKey \<Rightarrow> Product \<Rightarrow> Product \<Rightarrow> int" where
  "compare_products k a b =
     (case k of
        price_asc \<Rightarrow> price a - price b
      | price_desc \<Rightarrow> price b - price a
      | _ \<Rightarrow> created_at b - created_at a)"

text \<open>The text filter of the browser: \<open>includes\<close> on the lowered strings.\<close>

definition text_matches :: "string \<Rightarrow> Product \<Rightarrow> bool" where
  "text_matches q p =
     (let query = toLowerCase q
      in str_includes (toLowerCase (name p)) query \<or>
         (case description p of
            None \<Rightarrow> False
          | Some d \<Rightarrow> d \<noteq> [] \<and> str_includes (toLowerCase d) query))"

definition filterAndSort :: "Product list \<Rightarrow> string \<Rightarrow> string \<Rightarrow> SortKey \<Rightarrow> Product list" where
  "filterAndSort prods cat q k =
     (let filtered1 = (if cat \<noteq> ''all'' then filter (\<lambda>p. category p = cat) prods else prods);
          filtered2 = (if trim q \<noteq> [] then filter (text_matches q) filtered1 else filtered1)
      in sort_by (compare_products k) filtered2)"

section \<open>Order history\<close>

record Order =
  oid :: ident
  order_clerk_id :: ident
  total_amount :: int
  status :: string
  order_note :: "string option"
  order_created_at :: timestamp
  updated_at :: timestamp

record MyPageState =
  orders :: "Order list"
  orders_loading :: bool
  orders_error :: "string option"
  selectedStatus :: string

text \<open>
  The query of \<open>fetchOrders\<close>: \<open>.eq("clerk_id", user.id)\<close>, the status unless it is
  \<open>"all"\<close>, ordered by \<open>created_at\<close> descending.
\<close>

definition orders_rows :: "ident \<Rightarrow> string \<Rightarrow> Order list \<Rightarrow> Order list" where
  "orders_rows u s table =
     order_desc order_created_at
       (filter (\<lambda>ord. order_clerk_id ord = u \<and> (if s \<noteq> ''all'' then status ord = s else True)) table)"

definition fetchOrders ::
  "ident option \<Rightarrow> PostgrestError option \<Rightarrow> Order list \<Rightarrow> MyPageState \<Rightarrow> MyPageState" where
  "fetchOrders user fault table st =
     (case user of
        None \<Rightarrow> st\<lparr>orders_loading := False\<rparr>
      | Some u \<Rightarrow>
          (case fault of
             Some e \<Rightarrow> st\<lparr>orders_loading := False, orders_error := Some (error_text e)\<rparr>
           | None \<Rightarrow>
               st\<lparr>orders_loading := False, orders_error := None,
                  orders := orders_rows u (selectedStatus st) table\<rparr>))"

section \<open>Popular products of the home page\<close>

text \<open>
  \<open>getPopularProducts\<close> reads two environment variables, builds a client and asks for
  the eight newest active products. The environment decides whether the variables are
  set, whether building the client or awaiting the query throws, and whether the query
  answers with an error.
\<close>

record HomeEnv =
  supabaseUrl :: "string option"
  supabaseKey :: "string option"
  throws :: bool
  query_fault :: "PostgrestError option"

record 'a Answer =
  data :: "'a option"
  answer_error :: "PostgrestError option"

text \<open>\<open>.eq("is_active", true).order("created_at", { ascending: false }).limit(8)\<close>\<close>

definition popular_query :: "PostgrestError option \<Rightarrow> Product list \<Rightarrow> (Product list) Answer" where
  "popular_query fault table =
     (case fault of
        Some e \<Rightarrow> \<lparr>data = None, answer_error = Some e\<rparr>
      | None \<Rightarrow>
          \<lparr>data = Some (take 8 (order_desc created_at (filter is_active table))),
           answer_error = None\<rparr>)"

datatype Thrown = Thrown

text \<open>The \<open>try\<close> block: \<open>Inl\<close> is an exception on its way to the \<open>catch\<close>.\<close>

definition popular_try :: "HomeEnv \<Rightarrow> Product list \<Rightarrow> Thrown + Product list" where
  "popular_try env table =
     (if falsy (supabaseUrl env) \<or> falsy (supabaseKey env) then Inr []
      else if throws env then Inl Thrown
      else
        (let answer = popular_query (query_fault env) table
         in if answer_error answer \<noteq> None then Inr []
            else Inr (case data answer of None \<Rightarrow> [] | Some rows \<Rightarrow> rows)))"

definition getPopularProducts :: "HomeEnv \<Rightarrow> Product list \<Rightarrow> Product list" where
  "getPopularProducts env table =
     (case popular_try env table of Inl _ \<Rightarrow> [] | Inr rows \<Rightarrow> rows)"

section \<open>The filter the specification describes\<close>

text \<open>
  The specification's words for the catalog filter, to compare the two pages with: an
  active product, of the chosen category unless that is \<open>"all"\<close>, and, unless the
  search text is blank, with the search text occurring in its name or its description
  when letter case is ignored.
\<close>

definition spec_filter :: "string \<Rightarrow> string \<Rightarrow> Product \<Rightarrow> bool" where
  "spec_filter cat q p =
     (is_active p \<and>
      (if cat = ''all'' then True else category p = cat) \<and>
      (if trim q = [] then True
       else sublist (toLowerCase q) (toLowerCase (name p)) \<or>
            (case description p of
               None \<Rightarrow> False
             | Some d \<Rightarrow> sublist (toLowerCase q) (toLowerCase d))))"

text \<open>
  A search text free of the pattern characters of \<open>LIKE\<close>, and of the characters the
  filter expression of the query client keeps for itself (\<open>*\<close>, the comma, the
  parentheses and the double quote), which the model of \<open>ilike\<close> does not cover.
\<close>

definition plain :: "string \<Rightarrow> bool" where
  "plain q = (\<forall>c \<in> set q. lower_char c \<notin> set [CHR ''%'', CHR ''_'', CHR 0x5C] \<and>
                 c \<notin> set [CHR ''*'', CHR '','', CHR ''('', CHR '')'', CHR 0x22])"

section \<open>Example data\<close>

definition shirt :: Product where
  "shirt = \<lparr>pid = ''p1'', name = ''Shirt'', description = None, category = ''clothing'',
            price = 100, stock_quantity = 5, is_active = True, created_at = 10\<rparr>"

definition sold_out_shirt :: Product where
  "sold_out_shirt = shirt\<lparr>stock_quantity := 0\<rparr>"

definition viewing :: "Product \<Rightarrow> DetailState" where
  "viewing p = initial_detail\<lparr>product := Some p, loading := False\<rparr>"

definition remote_ok :: "ident \<Rightarrow> Remote" where
  "remote_ok i = \<lparr>lookup_fault = None, write_fault = None, count_fault = None, new_id = i\<rparr>"

definition abc :: Product where
  "abc = \<lparr>pid = ''p4'', name = ''abc'', description = None, category = ''books'',
     price = 5, stock_quantity = 1, is_active = True, created_at = 3\<rparr>"

definition hidden :: Product where
  "hidden = \<lparr>pid = ''p5'', name = ''Old stock'', description = None, category = ''books'',
     price = 5, stock_quantity = 1, is_active = False, created_at = 4\<rparr>"

definition cheap_old :: Product where
  "cheap_old = \<lparr>pid = ''p2'', name = ''Apron'', description = None, category = ''home'',
     price = 10, stock_quantity = 3, is_active = True, created_at = 1\<rparr>"

definition dear_new :: Product where
  "dear_new = \<lparr>pid = ''p3'', name = ''Zither'', description = None, category = ''home'',
     price = 90, stock_quantity = 3, is_active = True, created_at = 2\<rparr>"

definition item :: "string \<Rightarrow> int \<Rightarrow> timestamp \<Rightarrow> Product" where
  "item n pr t =
     \<lparr>pid = n, name = n, description = None, category = ''food'', price = pr,
      stock_quantity = 1, is_active = True, created_at = t\<rparr>"

definition browsing :: CatalogState where
  "browsing =
     \<lparr>products = [], list_loading = True, list_error = None, selectedCategory = ''all'',
      searchQuery = [], sortBy = newest, currentPage = 1, totalCount = 0\<rparr>"

definition fresh_browser :: BrowserCatalog where
  "fresh_browser = \<lparr>loaded = [], filteredProducts = [], browser_error = None\<rparr>"

definition home_ok :: HomeEnv where
  "home_ok =
     \<lparr>supabaseUrl = Some ''https://shop.example'', supabaseKey = Some ''anon'',
      throws = False, query_fault = None\<rparr>"

definition no_url :: HomeEnv where
  "no_url = home_ok\<lparr>supabaseUrl := None\<rparr>"

definition order_of :: "ident \<Rightarrow> ident \<Rightarrow> string \<Rightarrow> timestamp \<Rightarrow> Order" where
  "order_of i u s t =
     \<lparr>oid = i, order_clerk_id = u, total_amount = 100, status = s, order_note = None,
      order_created_at = t, updated_at = t\<rparr>"

definition my_page :: "string \<Rightarrow> MyPageState" where
  "my_page s = \<lparr>orders = [], orders_loading = True, orders_error = None, selectedStatus = s\<rparr>"

section \<open>The cart upsert\<close>

lemma cart_lines_update:
  "cart_lines u p (map (\<lambda>r. if cid r = i then r\<lparr>item_quantity := q\<rparr> else r) db) =
     map (\<lambda>r. if cid r = i then r\<lparr>item_quantity := q\<rparr> else r) (cart_lines u p db)"
  by (induction db) (auto simp: cart_lines_def)

lemma update_only_that_line:
  assumes "distinct (map cid db)" "e \<in> set db"
  shows "map (\<lambda>r. if cid r = cid e then r\<lparr>item_quantity := q\<rparr> else r) db =
         map (\<lambda>r. if r = e then e\<lparr>item_quantity := q\<rparr> else r) db"
proof (rule map_cong[OF refl])
  fix r assume "r \<in> set db"
  with assms have "cid r = cid e \<longleftrightarrow> r = e"
    by (meson distinct_map inj_on_def)
  then show "(if cid r = cid e then r\<lparr>item_quantity := q\<rparr> else r) =
             (if r = e then e\<lparr>item_quantity := q\<rparr> else r)" by auto
qed

lemma add_updates:
  assumes "product st = Some p" "lookup_fault env = None" "write_fault env = None"
    "cart_lines u (pid p) db = [e]"
  shows "snd (handleAddToCart (Some u) env (st, db)) =
      map (\<lambda>r. if cid r = cid e then r\<lparr>item_quantity := item_quantity e + quantity st\<rparr> else r) db"
  using assms by (simp add: handleAddToCart_def single_def data_of_def update_quantity_def)

lemma add_inserts:
  assumes "product st = Some p" "lookup_fault env = None" "write_fault env = None"
    "cart_lines u (pid p) db = []" "new_id env \<notin> set (map cid db)"
  shows "snd (handleAddToCart (Some u) env (st, db)) =
      db @ [\<lparr>cid = new_id env, clerk_id = u, product_id = pid p, item_quantity = quantity st\<rparr>]"
  using assms by (simp add: handleAddToCart_def single_def data_of_def insert_item_def)

lemma cart_lines_insert:
  "cart_lines u p db = [] \<Longrightarrow>
   cart_lines u p (db @ [\<lparr>cid = i, clerk_id = u, product_id = p, item_quantity = q\<rparr>]) =
     [\<lparr>cid = i, clerk_id = u, product_id = p, item_quantity = q\<rparr>]"
  by (simp add: cart_lines_def)

text \<open>
  C1. When the lookup and the write meet no remote failure, adding to the cart updates
  the one existing line of the (user, product) pair to its quantity plus the selected
  quantity and changes no other line; with no line for the pair it appends a new line
  with the selected quantity. Adding \<open>quantity st\<close> and then \<open>quantity st'\<close> to a
  cart without a line for the pair leaves exactly one line, with the sum. The pair is
  unique in the data model, so one line and no line are the cases there are.
\<close>

theorem cart_upsert:
  assumes "product st = Some p" "lookup_fault env = None" "write_fault env = None"
    and "distinct (map cid db)"
  shows "(\<forall>e. cart_lines u (pid p) db = [e] \<longrightarrow>
            snd (handleAddToCart (Some u) env (st, db)) =
              map (\<lambda>r. if r = e then e\<lparr>item_quantity := item_quantity e + quantity st\<rparr> else r) db \<and>
            cart_lines u (pid p) (snd (handleAddToCart (Some u) env (st, db))) =
              [e\<lparr>item_quantity := item_quantity e + quantity st\<rparr>])
       \<and> (cart_lines u (pid p) db = [] \<and> new_id env \<notin> set (map cid db) \<longrightarrow>
            snd (handleAddToCart (Some u) env (st, db)) =
              db @ [\<lparr>cid = new_id env, clerk_id = u, product_id = pid p, item_quantity = quantity st\<rparr>] \<and>
            cart_lines u (pid p) (snd (handleAddToCart (Some u) env (st, db))) =
              [\<lparr>cid = new_id env, clerk_id = u, product_id = pid p, item_quantity = quantity st\<rparr>] \<and>
            (product st' = Some p \<and> lookup_fault env' = None \<and> write_fault env' = None \<longrightarrow>
               cart_lines u (pid p)
                 (snd (handleAddToCart (Some u) env' (st', snd (handleAddToCart (Some u) env (st, db))))) =
               [\<lparr>cid = new_id env, clerk_id = u, product_id = pid p,
                 item_quantity = quantity st + quantity st'\<rparr>]))"
proof (intro conjI allI impI)
  fix e assume e: "cart_lines u (pid p) db = [e]"
  then have "e \<in> set (cart_lines u (pid p) db)" by simp
  then have mem: "e \<in> set db" by (simp add: cart_lines_def)
  note upd = add_updates[OF assms(1-3) e]
  show "snd (handleAddToCart (Some u) env (st, db)) =
      map (\<lambda>r. if r = e then e\<lparr>item_quantity := item_quantity e + quantity st\<rparr> else r) db"
    using upd update_only_that_line[OF assms(4) mem] by simp
  show "cart_lines u (pid p) (snd (handleAddToCart (Some u) env (st, db))) =
      [e\<lparr>item_quantity := item_quantity e + quantity st\<rparr>]"
    by (simp add: upd cart_lines_update e)
next
  assume a: "cart_lines u (pid p) db = [] \<and> new_id env \<notin> set (map cid db)"
  then have ins: "snd (handleAddToCart (Some u) env (st, db)) =
      db @ [\<lparr>cid = new_id env, clerk_id = u, product_id = pid p, item_quantity = quantity st\<rparr>]"
    using add_inserts[OF assms(1-3)] by simp
  show "snd (handleAddToCart (Some u) env (st, db)) =
      db @ [\<lparr>cid = new_id env, clerk_id = u, product_id = pid p, item_quantity = quantity st\<rparr>]"
    by (rule ins)
  show one: "cart_lines u (pid p) (snd (handleAddToCart (Some u) env (st, db))) =
      [\<lparr>cid = new_id env, clerk_id = u, product_id = pid p, item_quantity = quantity st\<rparr>]"
    using a by (simp add: ins cart_lines_insert)
  assume b: "product st' = Some p \<and> lookup_fault env' = None \<and> write_fault env' = None"
  have "snd (handleAddToCart (Some u) env' (st', snd (handleAddToCart (Some u) env (st, db)))) =
      map (\<lambda>r. if cid r = new_id env then r\<lparr>item_quantity := quantity st + quantity st'\<rparr> else r)
        (snd (handleAddToCart (Some u) env (st, db)))"
    using add_updates[OF _ _ _ one, of st' env'] b by simp
  then show "cart_lines u (pid p)
        (snd (handleAddToCart (Some u) env' (st', snd (handleAddToCart (Some u) env (st, db))))) =
      [\<lparr>cid = new_id env, clerk_id = u, product_id = pid p,
        item_quantity = quantity st + quantity st'\<rparr>]"
    by (simp add: cart_lines_update one)
qed

text \<open>Adding 2 and then 3 shirts to an empty cart leaves one line of 5.\<close>

theorem cart_upsert_witness:
  "product ((viewing shirt)\<lparr>quantity := 2\<rparr>) = Some shirt \<and>
   lookup_fault (remote_ok ''c1'') = None \<and> write_fault (remote_ok ''c1'') = None \<and>
   distinct (map cid []) \<and> cart_lines ''u1'' (pid shirt) [] = [] \<and>
   new_id (remote_ok ''c1'') \<notin> set (map cid []) \<and>
   product ((viewing shirt)\<lparr>quantity := 3\<rparr>) = Some shirt \<and>
   cart_lines ''u1'' (pid shirt)
     (snd (handleAddToCart (Some ''u1'') (remote_ok ''c2'') ((viewing shirt)\<lparr>quantity := 3\<rparr>,
        snd (handleAddToCart (Some ''u1'') (remote_ok ''c1'') ((viewing shirt)\<lparr>quantity := 2\<rparr>, []))))) =
     [\<lparr>cid = ''c1'', clerk_id = ''u1'', product_id = ''p1'', item_quantity = 5\<rparr>]"
proof -
  let ?st = "(viewing shirt)\<lparr>quantity := 2\<rparr>" and ?st' = "(viewing shirt)\<lparr>quantity := 3\<rparr>"
  have h1: "product ?st = Some shirt" and h1': "product ?st' = Some shirt"
    by (simp_all add: viewing_def)
  have h2: "lookup_fault (remote_ok ''c1'') = None" and h3: "write_fault (remote_ok ''c1'') = None"
    and h2': "lookup_fault (remote_ok ''c2'') = None" and h3': "write_fault (remote_ok ''c2'') = None"
    and h6: "new_id (remote_ok ''c1'') \<notin> set (map cid [])"
    by (simp_all add: remote_ok_def)
  have h4: "distinct (map cid [])" by simp
  have h5: "cart_lines ''u1'' (pid shirt) [] = []" by (simp add: cart_lines_def)
  have "cart_lines ''u1'' (pid shirt)
     (snd (handleAddToCart (Some ''u1'') (remote_ok ''c2'') (?st',
        snd (handleAddToCart (Some ''u1'') (remote_ok ''c1'') (?st, []))))) =
     [\<lparr>cid = new_id (remote_ok ''c1''), clerk_id = ''u1'', product_id = pid shirt,
       item_quantity = quantity ?st + quantity ?st'\<rparr>]"
    using cart_upsert[OF h1 h2 h3 h4, of "''u1''" ?st' "remote_ok ''c2''"] h5 h6 h1' h2' h3'
    by blast
  then have "cart_lines ''u1'' (pid shirt)
     (snd (handleAddToCart (Some ''u1'') (remote_ok ''c2'') (?st',
        snd (handleAddToCart (Some ''u1'') (remote_ok ''c1'') (?st, []))))) =
     [\<lparr>cid = ''c1'', clerk_id = ''u1'', product_id = ''p1'', item_quantity = 5\<rparr>]"
    by (simp add: remote_ok_def shirt_def)
  with h1 h1' h2 h3 h4 h5 h6 show ?thesis by simp
qed

section \<open>The quantity cap\<close>

text \<open>
  The selector itself stays between 1 and \<open>maxQuantity\<close> under every event, for a
  product in stock.
\<close>

lemma quantity_handle: "quantity (fst (handleAddToCart user env (st, db))) = quantity st"
  by (simp add: handleAddToCart_def Let_def split: option.splits sum.splits)

lemma selector_in_range:
  assumes "product st = Some p" "1 \<le> stock_quantity p"
    "1 \<le> quantity st \<and> quantity st \<le> maxQuantity p"
  shows "1 \<le> quantity (fst (dispatch user env ev (st, db))) \<and>
         quantity (fst (dispatch user env ev (st, db))) \<le> maxQuantity p"
proof (cases ev)
  case ClickMinus
  with assms show ?thesis by (simp add: dispatch_def)
next
  case ClickPlus
  with assms show ?thesis by (simp add: dispatch_def)
next
  case (InputChange v)
  with assms show ?thesis by (simp add: dispatch_def maxQuantity_def min_le_iff_disj)
next
  case ClickAddToCart
  with assms show ?thesis by (simp add: dispatch_def quantity_handle)
qed

text \<open>
  C2. The stored quantity does not stay under the cap: the update of an existing line
  adds the selected quantity to the stored one and clamps nothing. With 5 shirts in
  stock, selecting 5 and pressing the add button twice stores a line of 10, while
  \<open>maxQuantity\<close> is 5.
\<close>

theorem increment_exceeds_cap:
  "snd (run (Some ''u1'')
         [(remote_ok ''c1'', InputChange (Some 5)),
          (remote_ok ''c1'', ClickAddToCart),
          (remote_ok ''c2'', ClickAddToCart)]
         (viewing shirt, []))
     = [\<lparr>cid = ''c1'', clerk_id = ''u1'', product_id = ''p1'', item_quantity = 10\<rparr>]
   \<and> maxQuantity shirt = 5"
  by (simp add: dispatch_def handleAddToCart_def viewing_def shirt_def initial_detail_def single_def data_of_def
      insert_item_def update_quantity_def count_lines_def count_or_0_def cart_lines_def remote_ok_def
      purchase_rendered_def falsy_def maxQuantity_def parsed_or_1_def)

section \<open>Remote errors while adding to the cart\<close>

text \<open>
  A failed write does abort: the cart and the dialog stay as they were, and the page
  alerts.
\<close>

lemma write_error_aborts:
  assumes "product st = Some p" "write_fault env = Some e"
  shows "handleAddToCart (Some u) env (st, db) =
     (st\<lparr>addingToCart := False, alerts := alerts st @ [''add to cart failed'']\<rparr>, db)"
proof (cases "data_of (single (lookup_fault env) (cart_lines u (pid p) db))")
  case None
  with assms show ?thesis
    by (simp add: handleAddToCart_def insert_item_def)
next
  case (Some line)
  with assms show ?thesis
    by (simp add: handleAddToCart_def update_quantity_def)
qed

text \<open>
  C6. A remote error of the lookup does not abort the handler. With an empty cart and a
  lookup that fails, the handler goes on to the insert, writes the line, alerts nothing
  and opens the success dialog.
\<close>

theorem lookup_error_ignored:
  "handleAddToCart (Some ''u1'')
       \<lparr>lookup_fault = Some (PostgrestError ''Failed to fetch''), write_fault = None,
        count_fault = None, new_id = ''c1''\<rparr>
       (viewing shirt, [])
     = ((viewing shirt)\<lparr>showDialog := True, cartItemCount := 1\<rparr>,
        [\<lparr>cid = ''c1'', clerk_id = ''u1'', product_id = ''p1'', item_quantity = 1\<rparr>])"
  by (simp add: handleAddToCart_def viewing_def shirt_def initial_detail_def single_def data_of_def
      insert_item_def count_lines_def count_or_0_def cart_lines_def)

section \<open>Sold-out products\<close>

lemma dispatch_sold_out:
  "product st = Some p \<Longrightarrow> stock_quantity p = 0 \<Longrightarrow> dispatch user env ev (st, db) = (st, db)"
  by (simp add: dispatch_def purchase_rendered_def)

lemma run_sold_out:
  "product st = Some p \<Longrightarrow> stock_quantity p = 0 \<Longrightarrow> run user evs (st, db) = (st, db)"
  by (induction evs) (auto simp: dispatch_sold_out)

text \<open>
  C9. For a product with \<open>stock_quantity = 0\<close> the quantity selector and the add
  button are not rendered, no event changes the page or the cart, and so no run of
  events writes to the cart.
\<close>

theorem sold_out_no_write:
  assumes "product st = Some p" "stock_quantity p = 0"
  shows "\<not> purchase_rendered st \<and> dispatch user env ev (st, db) = (st, db) \<and>
         snd (run user evs (st, db)) = db"
  using assms by (simp add: purchase_rendered_def dispatch_sold_out run_sold_out)

text \<open>Pressing plus and the add button on a sold-out shirt leaves the cart empty.\<close>

theorem sold_out_no_write_witness:
  "product (viewing sold_out_shirt) = Some sold_out_shirt \<and> stock_quantity sold_out_shirt = 0 \<and>
   \<not> purchase_rendered (viewing sold_out_shirt) \<and>
   snd (run (Some ''u1'') [(remote_ok ''c1'', ClickPlus), (remote_ok ''c1'', ClickAddToCart)]
          (viewing sold_out_shirt, [])) = []"
  using sold_out_no_write[of "viewing sold_out_shirt" sold_out_shirt "Some ''u1''" "remote_ok ''c1''"
      ClickAddToCart "[]" "[(remote_ok ''c1'', ClickPlus), (remote_ok ''c1'', ClickAddToCart)]"]
  by (simp add: viewing_def sold_out_shirt_def shirt_def)

section \<open>The catalog filter\<close>

text \<open>\<open>includes\<close> is the substring test.\<close>

lemma str_includes_sublist: "str_includes s q = sublist q s"
  by (induction s) (auto simp: sublist_Cons_right)

text \<open>What the pattern \<open>%q%\<close> matches when \<open>q\<close> has no pattern character.\<close>

lemma like_percent: "like_match (CHR ''%'' # pat) s = (\<exists>a b. s = a @ b \<and> like_match pat b)"
proof (induction s)
  case Nil
  show ?case by simp
next
  case (Cons x s)
  have "like_match (CHR ''%'' # pat) (x # s) =
        (like_match pat (x # s) \<or> like_match (CHR ''%'' # pat) s)" by simp
  also have "\<dots> = (like_match pat (x # s) \<or> (\<exists>a b. s = a @ b \<and> like_match pat b))"
    using Cons.IH by simp
  also have "\<dots> = (\<exists>a b. x # s = a @ b \<and> like_match pat b)"
  proof
    assume "like_match pat (x # s) \<or> (\<exists>a b. s = a @ b \<and> like_match pat b)"
    then show "\<exists>a b. x # s = a @ b \<and> like_match pat b"
    proof
      assume "like_match pat (x # s)"
      then have "x # s = [] @ (x # s) \<and> like_match pat (x # s)" by simp
      then show ?thesis by blast
    next
      assume "\<exists>a b. s = a @ b \<and> like_match pat b"
      then obtain a b where "s = a @ b" "like_match pat b" by blast
      then have "x # s = (x # a) @ b \<and> like_match pat b" by simp
      then show ?thesis by blast
    qed
  next
    assume "\<exists>a b. x # s = a @ b \<and> like_match pat b"
    then obtain a b where ab: "x # s = a @ b" "like_match pat b" by blast
    show "like_match pat (x # s) \<or> (\<exists>a b. s = a @ b \<and> like_match pat b)"
    proof (cases a)
      case Nil
      with ab show ?thesis by simp
    next
      case (Cons y a')
      with ab have "s = a' @ b" by simp
      with ab show ?thesis by blast
    qed
  qed
  finally show ?case .
qed

lemma like_literal:
  assumes "\<forall>c \<in> set q. c \<notin> set [CHR ''%'', CHR ''_'', CHR 0x5C]"
  shows "like_match (q @ pat) s = (\<exists>t. s = q @ t \<and> like_match pat t)"
  using assms
proof (induction q arbitrary: s)
  case Nil
  show ?case by simp
next
  case (Cons c q)
  then have c: "c \<noteq> CHR ''%''" "c \<noteq> CHR ''_''" "c \<noteq> CHR 0x5C" by auto
  from Cons have IH: "\<And>s. like_match (q @ pat) s = (\<exists>t. s = q @ t \<and> like_match pat t)" by simp
  show ?case
  proof (cases s)
    case Nil
    with c show ?thesis by simp
  next
    case (Cons x t)
    with c IH show ?thesis by auto
  qed
qed

lemma like_any: "like_match ''%'' s"
  by (induction s) simp_all

lemma like_contains:
  assumes "\<forall>c \<in> set q. c \<notin> set [CHR ''%'', CHR ''_'', CHR 0x5C]"
  shows "like_match (''%'' @ q @ ''%'') s = sublist q s"
proof -
  have "like_match (''%'' @ q @ ''%'') s = (\<exists>a b. s = a @ b \<and> like_match (q @ ''%'') b)"
    using like_percent[of "q @ ''%''" s] by simp
  also have "\<dots> = (\<exists>a b. s = a @ b \<and> (\<exists>t. b = q @ t))"
    using like_literal[OF assms, of "''%''"] like_any by simp
  also have "\<dots> = sublist q s"
    by (auto simp: sublist_def)
  finally show ?thesis .
qed

lemma lower_percent: "toLowerCase (''%'' @ q @ ''%'') = ''%'' @ toLowerCase q @ ''%''"
  by (simp add: toLowerCase_def lower_char_def upper_letters_def lower_letters_def)

lemma ilike_contains:
  assumes "plain q"
  shows "ilike (''%'' @ q @ ''%'') s = str_includes (toLowerCase s) (toLowerCase q)"
proof -
  from assms have "\<forall>c \<in> set (toLowerCase q). c \<notin> set [CHR ''%'', CHR ''_'', CHR 0x5C]"
    by (simp add: plain_def toLowerCase_def)
  then show ?thesis
    unfolding ilike_def lower_percent str_includes_sublist by (rule like_contains)
qed

text \<open>
  The page that filters in the browser keeps exactly the products the specification
  describes, each once; the paginated page agrees with the specification on every
  search text without pattern characters.
\<close>

lemma trim_nonempty: "trim q \<noteq> [] \<Longrightarrow> q \<noteq> []"
  by (auto simp: trim_def)

lemma text_matches_spec:
  assumes "q \<noteq> []"
  shows "text_matches q p =
     (sublist (toLowerCase q) (toLowerCase (name p)) \<or>
      (case description p of None \<Rightarrow> False | Some d \<Rightarrow> sublist (toLowerCase q) (toLowerCase d)))"
proof (cases "description p")
  case None
  then show ?thesis by (simp add: text_matches_def str_includes_sublist)
next
  case (Some d)
  from assms have "toLowerCase q \<noteq> []" by (simp add: toLowerCase_def)
  then have "d = [] \<Longrightarrow> \<not> sublist (toLowerCase q) (toLowerCase d)"
    by (simp add: toLowerCase_def)
  with Some show ?thesis by (auto simp: text_matches_def str_includes_sublist)
qed

lemma browser_filter_spec:
  assumes "\<forall>p \<in> set prods. is_active p"
  shows "mset (filterAndSort prods cat q k) = filter_mset (spec_filter cat q) (mset prods)"
proof -
  have sorted_same: "mset (sort_by cmp xs) = mset xs" for cmp :: "Product \<Rightarrow> Product \<Rightarrow> int" and xs
  proof (induction xs)
    case Nil
    show ?case by (simp add: sort_by_def)
  next
    case (Cons x xs)
    have "mset (insert_by cmp x ys) = add_mset x (mset ys)" for ys
      by (induction ys) auto
    with Cons show ?case by (simp add: sort_by_def)
  qed
  have "filter (\<lambda>p. (if cat = ''all'' then True else category p = cat) \<and>
                     (if trim q = [] then True else text_matches q p)) prods
        = filter (spec_filter cat q) prods"
    using assms text_matches_spec[OF trim_nonempty, of q]
    by (intro filter_cong refl) (auto simp: spec_filter_def)
  moreover have "filterAndSort prods cat q k =
      sort_by (compare_products k)
        (filter (\<lambda>p. (if cat = ''all'' then True else category p = cat) \<and>
                     (if trim q = [] then True else text_matches q p)) prods)"
    by (simp add: filterAndSort_def Let_def)
  ultimately have "filterAndSort prods cat q k =
      sort_by (compare_products k) (filter (spec_filter cat q) prods)"
    by (simp only:)
  then show ?thesis by (simp only: sorted_same mset_filter)
qed

lemma catalog_filter_spec:
  assumes "plain q"
  shows "catalog_filter cat q p = spec_filter cat q p"
  using ilike_contains[OF assms]
  by (cases "description p")
     (simp_all add: catalog_filter_def spec_filter_def ilike_opt_def str_includes_sublist)

text \<open>
  C3. The paginated page does not filter by substring for every search text. It puts the
  text into the \<open>ilike\<close> pattern as typed, so \<open>_\<close> and \<open>%\<close> in it are
  wildcards: the search text \<open>_\<close> selects the product named \<open>abc\<close>, whose name
  and description do not contain it, and which the page that filters in the browser
  leaves out.
\<close>

theorem search_wildcard_selects:
  "products (fetchProducts None [abc] (browsing\<lparr>searchQuery := ''_''\<rparr>)) = [abc] \<and>
   \<not> spec_filter ''all'' ''_'' abc \<and>
   filterAndSort [abc] ''all'' ''_'' newest = []"
  by (simp add: fetchProducts_def browsing_def page_rows_def page_range_def range_rows_def
      ITEMS_PER_PAGE_def catalog_rows_def catalog_order_def order_desc_def catalog_filter_def
      trim_def is_space_def ilike_def ilike_opt_def toLowerCase_def lower_char_def upper_letters_def lower_letters_def abc_def
      filterAndSort_def text_matches_def sort_by_def spec_filter_def
      str_includes_sublist[symmetric])

section \<open>Sorting the catalog\<close>

lemma descending_sort_key:
  fixes key :: "'a \<Rightarrow> int"
  shows "sorted_wrt (\<lambda>a b. a \<ge> b) (map key (sort_key (\<lambda>r. - key r) rows))"
proof -
  have "sorted (map (\<lambda>r. - key r) (sort_key (\<lambda>r. - key r) rows))"
    by (rule sorted_sort_key)
  then show ?thesis by (simp add: sorted_map sorted_wrt_map)
qed

lemma insert_by_insort:
  fixes key :: "'a \<Rightarrow> int"
  shows "insert_by (\<lambda>a b. key a - key b) x ys = insort_key key x ys"
  by (induction ys) auto

lemma sort_by_sort_key:
  fixes key :: "'a \<Rightarrow> int"
  shows "sort_by (\<lambda>a b. key a - key b) xs = sort_key key xs"
  by (induction xs) (simp_all add: sort_by_def insert_by_insort)

lemma sort_by_desc:
  fixes key :: "'a \<Rightarrow> int"
  shows "sort_by (\<lambda>a b. key b - key a) xs = sort_key (\<lambda>r. - key r) xs"
  using sort_by_sort_key[of "\<lambda>r. - key r" xs] by simp

lemma compare_cases:
  "compare_products price_asc = (\<lambda>a b. price a - price b)"
  "compare_products price_desc = (\<lambda>a b. price b - price a)"
  "compare_products newest = (\<lambda>a b. created_at b - created_at a)"
  "compare_products name_asc = (\<lambda>a b. created_at b - created_at a)"
  by (intro ext, simp add: compare_products_def)+

lemma sort_by_compare:
  "sorted (map price (sort_by (compare_products price_asc) xs))"
  "sorted_wrt (\<lambda>a b. a \<ge> b) (map price (sort_by (compare_products price_desc) xs))"
  "sorted_wrt (\<lambda>a b. a \<ge> b) (map created_at (sort_by (compare_products newest) xs))"
  "sort_by (compare_products name_asc) xs = sort_by (compare_products newest) xs"
  by (simp_all add: compare_cases sort_by_sort_key sort_by_desc descending_sort_key)

lemma catalog_order_sorted:
  "sorted (map name (catalog_order name_asc rows))"
  "sorted_wrt (\<lambda>a b. a \<ge> b) (map created_at (catalog_order newest rows))"
  "catalog_order price_asc rows = catalog_order newest rows"
  "catalog_order price_desc rows = catalog_order newest rows"
  by (simp_all add: catalog_order_def order_asc_def order_desc_def descending_sort_key)

lemma mset_insert_by: "mset (insert_by cmp x ys) = add_mset x (mset ys)"
  by (induction ys) auto

lemma mset_sort_by: "mset (sort_by cmp xs) = mset xs"
  by (induction xs) (simp_all add: sort_by_def mset_insert_by)

lemma mset_catalog_order: "mset (catalog_order k rows) = mset rows"
  by (cases k) (simp_all add: catalog_order_def order_asc_def order_desc_def)

lemma mset_catalog_rows:
  "mset (catalog_rows cat q k table) = filter_mset (catalog_filter cat q) (mset table)"
  by (simp add: catalog_rows_def mset_catalog_order)

lemma mset_filterAndSort:
  "mset (filterAndSort prods cat q k) =
     filter_mset (\<lambda>p. (cat = ''all'' \<or> category p = cat) \<and> (trim q = [] \<or> text_matches q p))
       (mset prods)"
proof -
  have "filterAndSort prods cat q k =
      sort_by (compare_products k)
        (filter (\<lambda>p. (cat = ''all'' \<or> category p = cat) \<and> (trim q = [] \<or> text_matches q p)) prods)"
    by (cases "cat = ''all''"; cases "trim q = []") (simp_all add: filterAndSort_def Let_def)
  then show ?thesis
    by (simp only: mset_sort_by mset_filter)
qed

text \<open>
  C4, for the keys each page accepts. The paginated page accepts \<open>newest\<close> and
  \<open>name_asc\<close>; whatever the key, it returns the rows its filter selects, each once,
  by creation time descending for \<open>newest\<close> and by name ascending for \<open>name_asc\<close>.
  The page that filters in the browser accepts \<open>newest\<close>, \<open>price_asc\<close> and
  \<open>price_desc\<close>; it shows the loaded products its filters keep, each once, by
  creation time descending, by price ascending and by price descending.
\<close>

theorem catalog_sorting:
  "sort_options = [newest, name_asc] \<and>
   mset (catalog_rows cat q k table) = filter_mset (catalog_filter cat q) (mset table) \<and>
   sorted_wrt (\<lambda>a b. a \<ge> b) (map created_at (catalog_rows cat q newest table)) \<and>
   sorted (map name (catalog_rows cat q name_asc table)) \<and>
   browser_sort_options = [newest, price_asc, price_desc] \<and>
   mset (filterAndSort prods cat q k) =
     filter_mset (\<lambda>p. (cat = ''all'' \<or> category p = cat) \<and> (trim q = [] \<or> text_matches q p))
       (mset prods) \<and>
   sorted_wrt (\<lambda>a b. a \<ge> b) (map created_at (filterAndSort prods cat q newest)) \<and>
   sorted (map price (filterAndSort prods cat q price_asc)) \<and>
   sorted_wrt (\<lambda>a b. a \<ge> b) (map price (filterAndSort prods cat q price_desc))"
proof (intro conjI)
  show "sort_options = [newest, name_asc]"
    by (simp add: sort_options_def)
  show "browser_sort_options = [newest, price_asc, price_desc]"
    by (simp add: browser_sort_options_def)
  show "mset (catalog_rows cat q k table) = filter_mset (catalog_filter cat q) (mset table)"
    by (rule mset_catalog_rows)
  show "mset (filterAndSort prods cat q k) =
     filter_mset (\<lambda>p. (cat = ''all'' \<or> category p = cat) \<and> (trim q = [] \<or> text_matches q p))
       (mset prods)"
    by (rule mset_filterAndSort)
  show "sorted_wrt (\<lambda>a b. a \<ge> b) (map created_at (catalog_rows cat q newest table))"
    unfolding catalog_rows_def by (rule catalog_order_sorted)
  show "sorted (map name (catalog_rows cat q name_asc table))"
    unfolding catalog_rows_def by (rule catalog_order_sorted)
  show "sorted_wrt (\<lambda>a b. a \<ge> b) (map created_at (filterAndSort prods cat q newest))"
    unfolding filterAndSort_def Let_def by (rule sort_by_compare)
  show "sorted (map price (filterAndSort prods cat q price_asc))"
    unfolding filterAndSort_def Let_def by (rule sort_by_compare)
  show "sorted_wrt (\<lambda>a b. a \<ge> b) (map price (filterAndSort prods cat q price_desc))"
    unfolding filterAndSort_def Let_def by (rule sort_by_compare)
qed

text \<open>
  Three products in storage order \<open>cod\<close>, \<open>ale\<close>, \<open>bun\<close>: by name the paginated
  page returns \<open>ale\<close>, \<open>bun\<close>, \<open>cod\<close>, and by price the other page shows
  \<open>cod\<close>, \<open>ale\<close>, \<open>bun\<close>.
\<close>

theorem catalog_sorting_witness:
  "catalog_rows ''all'' [] name_asc [item ''cod'' 1 1, item ''ale'' 2 3, item ''bun'' 3 2] =
     [item ''ale'' 2 3, item ''bun'' 3 2, item ''cod'' 1 1] \<and>
   sorted (map name (catalog_rows ''all'' [] name_asc
     [item ''cod'' 1 1, item ''ale'' 2 3, item ''bun'' 3 2])) \<and>
   filterAndSort [item ''ale'' 2 3, item ''bun'' 3 2, item ''cod'' 1 1] ''all'' [] price_asc =
     [item ''cod'' 1 1, item ''ale'' 2 3, item ''bun'' 3 2] \<and>
   sorted (map price (filterAndSort [item ''ale'' 2 3, item ''bun'' 3 2, item ''cod'' 1 1]
     ''all'' [] price_asc))"
proof -
  have "catalog_rows ''all'' [] name_asc [item ''cod'' 1 1, item ''ale'' 2 3, item ''bun'' 3 2] =
     [item ''ale'' 2 3, item ''bun'' 3 2, item ''cod'' 1 1]"
    by (simp add: catalog_rows_def catalog_order_def order_asc_def catalog_filter_def trim_def
        item_def)
  moreover have
    "filterAndSort [item ''ale'' 2 3, item ''bun'' 3 2, item ''cod'' 1 1] ''all'' [] price_asc =
     [item ''cod'' 1 1, item ''ale'' 2 3, item ''bun'' 3 2]"
    by (simp add: filterAndSort_def trim_def sort_by_def compare_products_def item_def)
  ultimately show ?thesis
    using catalog_sorting[of "''all''" "[]" price_asc
        "[item ''cod'' 1 1, item ''ale'' 2 3, item ''bun'' 3 2]"
        "[item ''ale'' 2 3, item ''bun'' 3 2, item ''cod'' 1 1]"]
    by blast
qed

text \<open>
  No page accepts all four keys. The select of the paginated page has no price key, and
  with neither of its keys are \<open>ale\<close> (price 2, newest), \<open>bun\<close> (price 3) and
  \<open>cod\<close> (price 1, oldest) returned by price, ascending or descending. The select of
  the other page has no name key, and with none of its three keys are \<open>ale\<close> (price
  1, oldest), \<open>bun\<close> (price 3, newest) and \<open>cod\<close> (price 2) shown by name.
\<close>

theorem catalog_sorting_counterexample:
  "price_asc \<notin> set sort_options \<and> price_desc \<notin> set sort_options \<and>
   list_all (\<lambda>k. \<not> sorted (map price (catalog_rows ''all'' [] k
       [item ''ale'' 2 3, item ''bun'' 3 2, item ''cod'' 1 1]))) sort_options \<and>
   list_all (\<lambda>k. \<not> sorted_wrt (\<lambda>a b. a \<ge> b) (map price (catalog_rows ''all'' [] k
       [item ''ale'' 2 3, item ''bun'' 3 2, item ''cod'' 1 1]))) sort_options \<and>
   name_asc \<notin> set browser_sort_options \<and>
   list_all (\<lambda>k. \<not> sorted (map name (filterAndSort
       (loaded (fetchAllProducts None [item ''ale'' 1 1, item ''bun'' 3 3, item ''cod'' 2 2]
          fresh_browser)) ''all'' [] k))) browser_sort_options"
  by (simp add: sort_options_def browser_sort_options_def catalog_rows_def catalog_order_def
      order_asc_def order_desc_def catalog_filter_def trim_def item_def fetchAllProducts_def
      fresh_browser_def filterAndSort_def sort_by_def compare_products_def Let_def)

section \<open>Pagination\<close>

lemma window_concat:
  "concat (map (\<lambda>i. take p (drop (i * p) xs)) [0..<k]) = take (k * p) xs"
proof (induction k)
  case 0
  show ?case by simp
next
  case (Suc k)
  have "Suc k * p = k * p + p" by simp
  then have "take (Suc k * p) xs = take (k * p) xs @ take p (drop (k * p) xs)"
    by (simp only: take_add)
  with Suc show ?case by simp
qed

lemma upto_as_upt: "[1..int k] = map (\<lambda>i. int (Suc i)) [0..<k]"
proof (induction k)
  case 0
  show ?case by simp
next
  case (Suc k)
  have "[1..int (Suc k)] = [1..int (Suc k) - 1] @ [int (Suc k)]"
    by (rule upto_rec2) simp
  with Suc show ?case by simp
qed

lemma page_rows_window:
  "page_rows (1 + int i) rows = take 12 (drop (i * 12) rows)"
  by (simp add: page_rows_def page_range_def range_rows_def ITEMS_PER_PAGE_def Let_def nat_mult_distrib)

lemma pages_concat:
  "concat (map (\<lambda>n. page_rows n rows) [1..totalPages (int (length rows))]) = rows"
proof -
  define k where "k = (length rows + 11) div 12"
  have tp: "totalPages (int (length rows)) = int k"
    by (simp add: totalPages_def ITEMS_PER_PAGE_def k_def zdiv_int)
  have "length rows \<le> k * 12" unfolding k_def by arith
  then have "take (k * 12) rows = rows" by simp
  moreover have "concat (map (\<lambda>n. page_rows n rows) [1..int k]) = take (k * 12) rows"
    by (simp add: upto_as_upt comp_def page_rows_window window_concat)
  ultimately show ?thesis by (simp add: tp)
qed

text \<open>
  C5. For a page number from 1 on, the query asks for the rows from offset
  \<open>(page - 1) * ITEMS_PER_PAGE\<close> to that offset plus \<open>ITEMS_PER_PAGE - 1\<close>, and the
  page holds the \<open>ITEMS_PER_PAGE\<close> rows of the filtered and sorted result from that
  offset on; the pages 1 to \<open>totalPages\<close> one after the other are that result.
\<close>

theorem catalog_pagination:
  "(1 \<le> currentPage st \<longrightarrow>
      page_range (currentPage st) =
        ((currentPage st - 1) * ITEMS_PER_PAGE, (currentPage st - 1) * ITEMS_PER_PAGE + ITEMS_PER_PAGE - 1) \<and>
      products (fetchProducts None table st) =
        take (nat ITEMS_PER_PAGE) (drop (nat ((currentPage st - 1) * ITEMS_PER_PAGE))
          (catalog_rows (selectedCategory st) (searchQuery st) (sortBy st) table)))
   \<and> concat (map (\<lambda>n. products (fetchProducts None table (st\<lparr>currentPage := n\<rparr>)))
        [1..totalPages (totalCount (fetchProducts None table st))])
      = catalog_rows (selectedCategory st) (searchQuery st) (sortBy st) table"
proof (intro conjI impI)
  assume "1 \<le> currentPage st"
  show "page_range (currentPage st) =
        ((currentPage st - 1) * ITEMS_PER_PAGE, (currentPage st - 1) * ITEMS_PER_PAGE + ITEMS_PER_PAGE - 1)"
    by (simp add: page_range_def Let_def)
  show "products (fetchProducts None table st) =
        take (nat ITEMS_PER_PAGE) (drop (nat ((currentPage st - 1) * ITEMS_PER_PAGE))
          (catalog_rows (selectedCategory st) (searchQuery st) (sortBy st) table))"
    by (simp add: fetchProducts_def Let_def page_rows_def page_range_def range_rows_def)
next
  have "\<And>n. products (fetchProducts None table (st\<lparr>currentPage := n\<rparr>)) =
      page_rows n (catalog_rows (selectedCategory st) (searchQuery st) (sortBy st) table)"
    by (simp add: fetchProducts_def Let_def)
  moreover have "totalCount (fetchProducts None table st) =
      int (length (catalog_rows (selectedCategory st) (searchQuery st) (sortBy st) table))"
    by (simp add: fetchProducts_def Let_def)
  ultimately show "concat (map (\<lambda>n. products (fetchProducts None table (st\<lparr>currentPage := n\<rparr>)))
        [1..totalPages (totalCount (fetchProducts None table st))])
      = catalog_rows (selectedCategory st) (searchQuery st) (sortBy st) table"
    by (simp add: pages_concat)
qed

text \<open>The first page of a catalog of two products.\<close>

theorem catalog_pagination_witness:
  "1 \<le> currentPage browsing \<and>
   page_range (currentPage browsing) = (0, 11) \<and>
   products (fetchProducts None [cheap_old, dear_new] browsing) = [dear_new, cheap_old] \<and>
   concat (map (\<lambda>n. products (fetchProducts None [cheap_old, dear_new] (browsing\<lparr>currentPage := n\<rparr>)))
     [1..totalPages (totalCount (fetchProducts None [cheap_old, dear_new] browsing))])
     = [dear_new, cheap_old]"
proof -
  have page: "1 \<le> currentPage browsing"
    by (simp add: browsing_def)
  have rows: "catalog_rows (selectedCategory browsing) (searchQuery browsing) (sortBy browsing)
      [cheap_old, dear_new] = [dear_new, cheap_old]"
    by (simp add: browsing_def catalog_rows_def catalog_order_def order_desc_def catalog_filter_def
        trim_def cheap_old_def dear_new_def)
  have range: "page_range (currentPage browsing) = (0, 11)"
    by (simp add: browsing_def page_range_def ITEMS_PER_PAGE_def)
  have window: "take (nat ITEMS_PER_PAGE)
      (drop (nat ((currentPage browsing - 1) * ITEMS_PER_PAGE)) [dear_new, cheap_old]) =
      [dear_new, cheap_old]"
    by (simp add: browsing_def ITEMS_PER_PAGE_def)
  note paged = catalog_pagination[of browsing "[cheap_old, dear_new]", unfolded rows]
  from paged page have "products (fetchProducts None [cheap_old, dear_new] browsing) =
      take (nat ITEMS_PER_PAGE)
        (drop (nat ((currentPage browsing - 1) * ITEMS_PER_PAGE)) [dear_new, cheap_old])"
    by blast
  with window have first: "products (fetchProducts None [cheap_old, dear_new] browsing) =
      [dear_new, cheap_old]"
    by (simp only:)
  from paged have "concat (map (\<lambda>n. products (fetchProducts None [cheap_old, dear_new]
        (browsing\<lparr>currentPage := n\<rparr>)))
      [1..totalPages (totalCount (fetchProducts None [cheap_old, dear_new] browsing))])
      = [dear_new, cheap_old]"
    by blast
  with page range first show ?thesis
    by (simp only: simp_thms)
qed

section \<open>Order history\<close>

lemma orders_rows_mset:
  "mset (orders_rows u s table) =
     filter_mset (\<lambda>ord. order_clerk_id ord = u \<and> (s = ''all'' \<or> status ord = s)) (mset table)"
  by (cases "s = ''all''") (simp_all add: orders_rows_def order_desc_def)

lemma orders_rows_sorted:
  "sorted_wrt (\<lambda>a b. a \<ge> b) (map order_created_at (orders_rows u s table))"
  by (simp only: orders_rows_def order_desc_def descending_sort_key)

text \<open>
  C7. For a signed-in user and a query that meets no remote failure, the orders the page
  shows are the user's orders, of the selected status unless that is \<open>"all"\<close>, each
  once, newest first.
\<close>

theorem order_history:
  "orders_error (fetchOrders (Some u) None table st) = None \<and>
   mset (orders (fetchOrders (Some u) None table st)) =
     filter_mset (\<lambda>ord. order_clerk_id ord = u \<and>
                    (selectedStatus st = ''all'' \<or> status ord = selectedStatus st)) (mset table) \<and>
   sorted_wrt (\<lambda>a b. a \<ge> b) (map order_created_at (orders (fetchOrders (Some u) None table st)))"
proof -
  have "orders (fetchOrders (Some u) None table st) = orders_rows u (selectedStatus st) table"
    and "orders_error (fetchOrders (Some u) None table st) = None"
    by (simp_all add: fetchOrders_def)
  then show ?thesis
    by (simp only: orders_rows_mset orders_rows_sorted simp_thms)
qed

text \<open>
  Of four orders, the two shipped orders of the user \<open>u1\<close>, the newer one first.
\<close>

theorem order_history_witness:
  "orders (fetchOrders (Some ''u1'') None
     [order_of ''o1'' ''u1'' ''shipped'' 1, order_of ''o2'' ''u1'' ''pending'' 2,
      order_of ''o3'' ''u2'' ''shipped'' 3, order_of ''o4'' ''u1'' ''shipped'' 4]
     (my_page ''shipped''))
   = [order_of ''o4'' ''u1'' ''shipped'' 4, order_of ''o1'' ''u1'' ''shipped'' 1] \<and>
   mset (orders (fetchOrders (Some ''u1'') None
     [order_of ''o1'' ''u1'' ''shipped'' 1, order_of ''o2'' ''u1'' ''pending'' 2,
      order_of ''o3'' ''u2'' ''shipped'' 3, order_of ''o4'' ''u1'' ''shipped'' 4]
     (my_page ''shipped'')))
   = {#order_of ''o1'' ''u1'' ''shipped'' 1, order_of ''o4'' ''u1'' ''shipped'' 4#}"
  using order_history[of "''u1''"
      "[order_of ''o1'' ''u1'' ''shipped'' 1, order_of ''o2'' ''u1'' ''pending'' 2,
        order_of ''o3'' ''u2'' ''shipped'' 3, order_of ''o4'' ''u1'' ''shipped'' 4]"
      "my_page ''shipped''"]
  by (simp add: fetchOrders_def orders_rows_def order_desc_def my_page_def order_of_def)

section \<open>Only active products\<close>

lemma set_insert_by: "set (insert_by cmp x ys) = insert x (set ys)"
  by (induction ys) auto

lemma set_sort_by: "set (sort_by cmp xs) = set xs"
  by (induction xs) (simp_all add: sort_by_def set_insert_by)

lemma set_page_rows: "set (page_rows n rows) \<subseteq> set rows"
proof -
  have "set (take a (drop b rows)) \<subseteq> set rows" for a b
    using set_take_subset[of a "drop b rows"] set_drop_subset[of b rows] by blast
  then show ?thesis
    by (cases "page_range n") (simp add: page_rows_def range_rows_def)
qed

lemma catalog_rows_active: "p \<in> set (catalog_rows cat q k table) \<Longrightarrow> is_active p"
  by (cases k) (simp_all add: catalog_rows_def catalog_order_def order_asc_def order_desc_def
      catalog_filter_def)

lemma fetchProducts_active:
  assumes "\<forall>p \<in> set (products st). is_active p"
  shows "\<forall>p \<in> set (products (fetchProducts fault table st)). is_active p"
proof (cases fault)
  case None
  have rows: "products (fetchProducts None table st) =
      page_rows (currentPage st) (catalog_rows (selectedCategory st) (searchQuery st) (sortBy st) table)"
    by (simp add: fetchProducts_def Let_def)
  show ?thesis
  proof
    fix p assume "p \<in> set (products (fetchProducts fault table st))"
    then have "p \<in> set (page_rows (currentPage st)
        (catalog_rows (selectedCategory st) (searchQuery st) (sortBy st) table))"
      by (simp only: None rows)
    then have "p \<in> set (catalog_rows (selectedCategory st) (searchQuery st) (sortBy st) table)"
      by (rule subsetD[OF set_page_rows])
    then show "is_active p" by (rule catalog_rows_active)
  qed
next
  case (Some e)
  have "products (fetchProducts (Some e) table st) = products st"
    by (simp add: fetchProducts_def)
  with assms Some show ?thesis by simp
qed

lemma fetchAllProducts_active:
  assumes "\<forall>p \<in> set (loaded st). is_active p"
  shows "\<forall>p \<in> set (loaded (fetchAllProducts fault table st)). is_active p"
  using assms by (cases fault) (simp_all add: fetchAllProducts_def Let_def order_desc_def)

lemma filterAndSort_subset: "set (filterAndSort prods cat q k) \<subseteq> set prods"
  by (auto simp: filterAndSort_def Let_def set_sort_by)

lemma fetchProduct_active:
  assumes "\<forall>p. product st = Some p \<longrightarrow> is_active p"
  shows "\<forall>p. product (fetchProduct fault i table st) = Some p \<longrightarrow> is_active p"
proof (cases "i = []")
  case True
  with assms show ?thesis by (simp add: fetchProduct_def)
next
  case route: False
  show ?thesis
  proof (cases "single fault (filter (\<lambda>p. pid p = i \<and> is_active p) table)")
    case (Inl e)
    with assms route show ?thesis by (simp add: fetchProduct_def)
  next
    case (Inr r)
    then have "filter (\<lambda>p. pid p = i \<and> is_active p) table = [r]"
      by (auto simp: single_def split: option.splits list.splits)
    then have "r \<in> set (filter (\<lambda>p. pid p = i \<and> is_active p) table)" by simp
    then have "is_active r" by simp
    with Inr route show ?thesis by (simp add: fetchProduct_def)
  qed
qed

lemma popular_cases:
  "getPopularProducts env table =
     (if falsy (supabaseUrl env) \<or> falsy (supabaseKey env) \<or> throws env \<or> query_fault env \<noteq> None
      then [] else take 8 (order_desc created_at (filter is_active table)))"
  by (cases "query_fault env")
     (simp_all add: getPopularProducts_def popular_try_def popular_query_def Let_def)

lemma popular_active: "p \<in> set (getPopularProducts env table) \<Longrightarrow> is_active p"
proof (cases "getPopularProducts env table = []")
  case True
  then show "p \<in> set (getPopularProducts env table) \<Longrightarrow> is_active p" by simp
next
  case False
  assume "p \<in> set (getPopularProducts env table)"
  with False have "p \<in> set (take 8 (order_desc created_at (filter is_active table)))"
    by (simp add: popular_cases split: if_splits)
  then have "p \<in> set (order_desc created_at (filter is_active table))"
    by (rule in_set_takeD)
  then show "is_active p" by (simp add: order_desc_def)
qed

text \<open>
  C8. Every read of products keeps the pages free of inactive products: the catalog
  page after \<open>fetchProducts\<close>, the other catalog page after its fetch and in its
  filtered list, the detail page after \<open>fetchProduct\<close>, and the popular products of
  the home page. A fetch that fails leaves what the page held, so each page is stated
  as an invariant of its fetch; every page starts without products. The detail page
  adds to the cart only the product it has fetched: without one, no event does
  anything.
\<close>

theorem only_active_products:
  "((\<forall>p \<in> set (products st). is_active p) \<longrightarrow>
      (\<forall>p \<in> set (products (fetchProducts fault table st)). is_active p)) \<and>
   ((\<forall>p \<in> set (loaded b). is_active p) \<longrightarrow>
      (\<forall>p \<in> set (loaded (fetchAllProducts fault table b)). is_active p) \<and>
      (\<forall>p \<in> set (filterAndSort (loaded (fetchAllProducts fault table b)) cat q k). is_active p)) \<and>
   ((\<forall>p. product d = Some p \<longrightarrow> is_active p) \<longrightarrow>
      (\<forall>p. product (fetchProduct fault i table d) = Some p \<longrightarrow> is_active p)) \<and>
   (\<forall>p \<in> set (getPopularProducts env table). is_active p) \<and>
   (product d = None \<longrightarrow> dispatch user remote ev (d, db) = (d, db))"
proof (intro conjI impI)
  assume "\<forall>p \<in> set (products st). is_active p"
  then show "\<forall>p \<in> set (products (fetchProducts fault table st)). is_active p"
    by (rule fetchProducts_active)
next
  assume "\<forall>p \<in> set (loaded b). is_active p"
  then show all: "\<forall>p \<in> set (loaded (fetchAllProducts fault table b)). is_active p"
    by (rule fetchAllProducts_active)
  show "\<forall>p \<in> set (filterAndSort (loaded (fetchAllProducts fault table b)) cat q k). is_active p"
    using all filterAndSort_subset[of "loaded (fetchAllProducts fault table b)" cat q k] by blast
next
  assume "\<forall>p. product d = Some p \<longrightarrow> is_active p"
  then show "\<forall>p. product (fetchProduct fault i table d) = Some p \<longrightarrow> is_active p"
    by (rule fetchProduct_active)
next
  show "\<forall>p \<in> set (getPopularProducts env table). is_active p"
    using popular_active by blast
next
  assume "product d = None"
  then show "dispatch user remote ev (d, db) = (d, db)"
    by (simp add: dispatch_def)
qed

text \<open>An inactive product of the table reaches none of the pages.\<close>

theorem only_active_products_witness:
  "products browsing = [] \<and> loaded fresh_browser = [] \<and> product initial_detail = None \<and>
   \<not> is_active hidden \<and>
   hidden \<notin> set (products (fetchProducts None [abc, hidden] browsing)) \<and>
   hidden \<notin> set (loaded (fetchAllProducts None [abc, hidden] fresh_browser)) \<and>
   hidden \<notin> set (filterAndSort (loaded (fetchAllProducts None [abc, hidden] fresh_browser))
      ''all'' [] newest) \<and>
   product (fetchProduct None (pid hidden) [abc, hidden] initial_detail) \<noteq> Some hidden \<and>
   hidden \<notin> set (getPopularProducts home_ok [abc, hidden])"
proof -
  have start: "\<forall>p \<in> set (products browsing). is_active p"
    "\<forall>p \<in> set (loaded fresh_browser). is_active p"
    "\<forall>p. product initial_detail = Some p \<longrightarrow> is_active p"
    by (simp_all add: browsing_def fresh_browser_def initial_detail_def)
  have inactive: "\<not> is_active hidden"
    by (simp add: hidden_def)
  have "products browsing = []" "loaded fresh_browser = []" "product initial_detail = None"
    by (simp_all add: browsing_def fresh_browser_def initial_detail_def)
  then show ?thesis
    using only_active_products[of browsing None "[abc, hidden]" fresh_browser "''all''" "[]" newest
        initial_detail "pid hidden" home_ok] start inactive
    by blast
qed

section \<open>Popular products\<close>

text \<open>
  C10. \<open>getPopularProducts\<close> always returns a list. The list is empty when a
  variable is missing, when something throws, and when the query answers with an error;
  otherwise it is the first eight active products, newest first. In every case it has
  at most eight products, all active, in descending order of creation time.
\<close>

theorem popular_products_total:
  "(falsy (supabaseUrl env) \<or> falsy (supabaseKey env) \<or> throws env \<or> query_fault env \<noteq> None
      \<longrightarrow> getPopularProducts env table = []) \<and>
   (\<not> (falsy (supabaseUrl env) \<or> falsy (supabaseKey env) \<or> throws env \<or> query_fault env \<noteq> None)
      \<longrightarrow> getPopularProducts env table = take 8 (order_desc created_at (filter is_active table))) \<and>
   length (getPopularProducts env table) \<le> 8 \<and>
   (\<forall>p \<in> set (getPopularProducts env table). is_active p) \<and>
   sorted_wrt (\<lambda>a b. a \<ge> b) (map created_at (getPopularProducts env table))"
proof (intro conjI impI)
  assume "falsy (supabaseUrl env) \<or> falsy (supabaseKey env) \<or> throws env \<or> query_fault env \<noteq> None"
  then show "getPopularProducts env table = []"
    by (simp only: popular_cases if_True)
next
  assume "\<not> (falsy (supabaseUrl env) \<or> falsy (supabaseKey env) \<or> throws env \<or> query_fault env \<noteq> None)"
  then show "getPopularProducts env table = take 8 (order_desc created_at (filter is_active table))"
    by (simp only: popular_cases if_False)
next
  show "length (getPopularProducts env table) \<le> 8"
    by (simp add: popular_cases)
next
  show "\<forall>p \<in> set (getPopularProducts env table). is_active p"
    using popular_active by blast
next
  have "sorted_wrt (\<lambda>a b. a \<ge> b)
      (map created_at (take 8 (order_desc created_at (filter is_active table))))"
    unfolding take_map[symmetric] order_desc_def by (rule sorted_wrt_take[OF descending_sort_key])
  then show "sorted_wrt (\<lambda>a b. a \<ge> b) (map created_at (getPopularProducts env table))"
    by (cases "falsy (supabaseUrl env) \<or> falsy (supabaseKey env) \<or> throws env \<or> query_fault env \<noteq> None")
       (simp_all only: popular_cases if_True if_False list.map sorted_wrt.simps)
qed

text \<open>Without the URL the list is empty; with the configuration the active product is listed.\<close>

theorem popular_products_total_witness:
  "falsy (supabaseUrl no_url) \<and> getPopularProducts no_url [abc, hidden] = [] \<and>
   \<not> (falsy (supabaseUrl home_ok) \<or> falsy (supabaseKey home_ok) \<or> throws home_ok \<or>
      query_fault home_ok \<noteq> None) \<and>
   getPopularProducts home_ok [abc, hidden] = [abc]"
proof -
  have off: "falsy (supabaseUrl no_url)"
    by (simp add: no_url_def falsy_def)
  have on: "\<not> (falsy (supabaseUrl home_ok) \<or> falsy (supabaseKey home_ok) \<or> throws home_ok \<or>
      query_fault home_ok \<noteq> None)"
    by (simp add: home_ok_def falsy_def)
  have "take 8 (order_desc created_at (filter is_active [abc, hidden])) = [abc]"
    by (simp add: order_desc_def abc_def hidden_def)
  then show ?thesis
    using popular_products_total[of no_url "[abc, hidden]"]
      popular_products_total[of home_ok "[abc, hidden]"] off on
    by simp
qed

end
